theory Spec2Isabelle
  imports Main
begin

section \<open>The storage engine consumed by IndexedDBUtil.ts\<close>

text \<open>
  \<^verbatim>\<open>src/IndexedDBUtil.ts\<close> is a promise wrapper around the browser's IndexedDB. The wrapper
  is embedded function by function in the next section. The engine itself is not part of
  the repository; this section gives the in-memory model of the capability surface the
  wrapper consumes (spec, section 6), following the spec's data model (section 3) and, where
  the spec is silent, the behaviour the IndexedDB interface defines for the same call.
  One operation runs at a time and no other connection is open.
\<close>

type_synonym name = string

datatype error =
    PlainError string      \<comment> \<open>\<^verbatim>\<open>new Error(message)\<close>\<close>
  | DOMException string    \<comment> \<open>an engine error, by name\<close>
  | NativeError string     \<comment> \<open>a \<^verbatim>\<open>TypeError\<close> or \<^verbatim>\<open>ReferenceError\<close> thrown by the runtime\<close>

datatype mode = ReadOnly | ReadWrite

datatype ('k, 'v) request = Put 'v 'k | Get 'k | GetAll | Delete 'k | Clear

record connection =
  conn_name :: name
  conn_version :: nat

datatype ('k, 'v) result =
    Undefined
  | Item 'v
  | KeyResult 'k
  | Items "'v list"
  | Version nat
  | Connection connection

record ('k, 'v) database =
  version :: nat
  objectStores :: "(name \<times> ('k \<times> 'v) list) list"

type_synonym ('k, 'v) engine = "name \<rightharpoonup> ('k, 'v) database"

text \<open>
  The platform: whether \<^verbatim>\<open>'indexedDB' in window\<close> holds, and which requests the engine
  fails (and with which cause) instead of carrying them out. A platform whose \<open>fails\<close> is
  \<open>\<lambda>_. None\<close> is a healthy engine.
\<close>

record ('k, 'v) platform =
  hasIndexedDB :: bool
  fails :: "('k, 'v) request \<Rightarrow> error option"

subsection \<open>Collections\<close>

text \<open>
  Modelled from the spec: a collection is a mapping from keys to opaque items (section 3);
  the engine keeps its records in key order. \<open>put\<close> inserts or replaces, \<open>delete\<close> of an
  absent key changes nothing.
\<close>

fun put_entry :: "'k::linorder \<Rightarrow> 'v \<Rightarrow> ('k \<times> 'v) list \<Rightarrow> ('k \<times> 'v) list" where
  "put_entry k v [] = [(k, v)]"
| "put_entry k v ((k', v') # xs) =
     (if k < k' then (k, v) # (k', v') # xs
      else if k = k' then (k, v) # xs
      else (k', v') # put_entry k v xs)"

fun delete_entry :: "'k \<Rightarrow> ('k \<times> 'v) list \<Rightarrow> ('k \<times> 'v) list" where
  "delete_entry k [] = []"
| "delete_entry k ((k', v') # xs) =
     (if k = k' then delete_entry k xs else (k', v') # delete_entry k xs)"

text \<open>
  Modelled from the spec: the five requests of section 6 and the request semantics of the
  table in section 4.4. Each yields its result value and the collection's new contents.
\<close>

fun execute ::
  "('k::linorder, 'v) request \<Rightarrow> ('k \<times> 'v) list \<Rightarrow> ('k, 'v) result \<times> ('k \<times> 'v) list" where
  "execute (Put v k) xs = (KeyResult k, put_entry k v xs)"
| "execute (Get k) xs = ((case map_of xs k of None \<Rightarrow> Undefined | Some v \<Rightarrow> Item v), xs)"
| "execute GetAll xs = (Items (map snd xs), xs)"
| "execute (Delete k) xs = (Undefined, delete_entry k xs)"
| "execute Clear xs = (Undefined, [])"

fun is_write :: "('k, 'v) request \<Rightarrow> bool" where
  "is_write (Put v k) = True"
| "is_write (Get k) = False"
| "is_write GetAll = False"
| "is_write (Delete k) = True"
| "is_write Clear = True"

subsection \<open>Databases, versions and the upgrade step\<close>

definition objectStoreNames :: "('k, 'v) database \<Rightarrow> name list" where
  "objectStoreNames d = map fst (objectStores d)"

text \<open>
  Modelled from the spec: \<open>createCollection\<close> of section 6. The engine refuses a second
  collection of the same name with a \<open>ConstraintError\<close>.
\<close>

definition createObjectStore ::
  "name \<Rightarrow> ('k, 'v) database \<Rightarrow> error + ('k, 'v) database" where
  "createObjectStore s d =
     (if s \<in> set (objectStoreNames d) then Inl (DOMException ''ConstraintError'')
      else Inr (d\<lparr>objectStores := objectStores d @ [(s, [])]\<rparr>))"

text \<open>
  Modelled from the spec: a database is identified by its name and holds an integer schema
  version and a set of named collections (section 3). A name the engine has no database for
  stands for a database at version 0 with no collection, which is what the engine creates
  before it upgrades it to the first requested version.
\<close>

definition stored :: "('k, 'v) engine \<Rightarrow> name \<Rightarrow> ('k, 'v) database" where
  "stored dbs n = (case dbs n of None \<Rightarrow> \<lparr>version = 0, objectStores = []\<rparr> | Some d \<Rightarrow> d)"

definition version_of :: "('k, 'v) engine \<Rightarrow> name \<Rightarrow> nat" where
  "version_of dbs n = version (stored dbs n)"

text \<open>
  Modelled from the spec: \<open>openDatabase(name, version?)\<close> of section 6 with the rules of
  sections 4.1 and 4.2. With no version the engine takes the stored version, or 1 for a new
  database. A requested version below the stored one is refused with a \<open>VersionError\<close>; a
  requested version above it runs the upgrade handler on the database at the new version and
  then stores the result; a handler that throws aborts the upgrade and leaves the engine as
  it was. Version 0 is not a version: the call throws a \<open>TypeError\<close>.
\<close>

definition indexedDB_open ::
  "name \<Rightarrow> nat option \<Rightarrow> (('k, 'v) database \<Rightarrow> error + ('k, 'v) database) \<Rightarrow>
   ('k, 'v) engine \<Rightarrow> (error + connection) \<times> ('k, 'v) engine" where
  "indexedDB_open n requested onupgrade dbs =
     (if requested = Some 0 then (Inl (NativeError ''TypeError''), dbs)
      else
        let old = stored dbs n;
            v = (case requested of
                   Some r \<Rightarrow> r
                 | None \<Rightarrow> if version old = 0 then 1 else version old)
        in if v < version old then (Inl (DOMException ''VersionError''), dbs)
           else if version old < v then
             (case onupgrade (old\<lparr>version := v\<rparr>) of
                Inl e \<Rightarrow> (Inl (DOMException ''AbortError''), dbs)
              | Inr d \<Rightarrow> (Inr \<lparr>conn_name = n, conn_version = v\<rparr>, dbs(n \<mapsto> d)))
           else (Inr \<lparr>conn_name = n, conn_version = v\<rparr>, dbs))"

text \<open>Modelled from the spec: \<open>deleteDatabase(name)\<close> of section 6.\<close>

definition indexedDB_deleteDatabase :: "name \<Rightarrow> ('k, 'v) engine \<Rightarrow> ('k, 'v) engine" where
  "indexedDB_deleteDatabase n dbs = dbs(n := None)"

subsection \<open>Transactions, requests and their events\<close>

text \<open>
  Modelled from the spec: \<open>connection.transaction(collectionName, mode)\<close> followed by
  \<open>transaction.collection(name)\<close> (section 6). The call throws a \<open>NotFoundError\<close> when the
  connection's database has no collection of that name; otherwise it gives access to the
  collection's contents.
\<close>

definition db_transaction ::
  "connection \<Rightarrow> name \<Rightarrow> ('k, 'v) engine \<Rightarrow> error + ('k \<times> 'v) list" where
  "db_transaction db s dbs =
     (case dbs (conn_name db) of
        None \<Rightarrow> Inl (DOMException ''NotFoundError'')
      | Some d \<Rightarrow>
          (case map_of (objectStores d) s of
             None \<Rightarrow> Inl (DOMException ''NotFoundError'')
           | Some xs \<Rightarrow> Inr xs))"

fun replace_store ::
  "name \<Rightarrow> ('k \<times> 'v) list \<Rightarrow> (name \<times> ('k \<times> 'v) list) list \<Rightarrow> (name \<times> ('k \<times> 'v) list) list" where
  "replace_store s xs [] = []"
| "replace_store s xs ((s', ys) # rest) =
     (if s = s' then (s', xs) # rest else (s', ys) # replace_store s xs rest)"

text \<open>A transaction that completes writes the collection's contents back.\<close>

definition commit ::
  "connection \<Rightarrow> name \<Rightarrow> ('k \<times> 'v) list \<Rightarrow> ('k, 'v) engine \<Rightarrow> ('k, 'v) engine" where
  "commit db s xs dbs =
     (case dbs (conn_name db) of
        None \<Rightarrow> dbs
      | Some d \<Rightarrow> dbs(conn_name db \<mapsto> d\<lparr>objectStores := replace_store s xs (objectStores d)\<rparr>))"

text \<open>
  Modelled from the spec: a request settles exactly once, with a result value or with an
  error (section 3); the transaction ends on completion after its requests have settled, or
  on abort after a request error that no handler has intercepted (section 3), and the two are
  separate signals (\<open>transaction.onComplete\<close>, \<open>transaction.onAbort\<close>, section 6). An aborted
  transaction leaves the collection as it was when the transaction began.
\<close>

datatype ('k, 'v) event =
    Success "('k, 'v) result"    \<comment> \<open>the request's \<^verbatim>\<open>success\<close> event, with its result\<close>
  | ErrorEvent error             \<comment> \<open>the request's \<^verbatim>\<open>error\<close> event, with its cause\<close>
  | Complete                     \<comment> \<open>the transaction's \<^verbatim>\<open>complete\<close> event\<close>
  | Abort                        \<comment> \<open>the transaction's \<^verbatim>\<open>abort\<close> event\<close>

definition settle ::
  "('k::linorder, 'v) platform \<Rightarrow> ('k, 'v) request \<Rightarrow> ('k \<times> 'v) list \<Rightarrow>
   ('k, 'v) event \<times> ('k \<times> 'v) list" where
  "settle p req xs =
     (case fails p req of
        Some cause \<Rightarrow> (ErrorEvent cause, xs)
      | None \<Rightarrow> (Success (fst (execute req xs)), snd (execute req xs)))"

text \<open>
  The events of a transaction that carries one request: the request's settlement, then the
  end of the transaction; together with the contents the transaction leaves behind.
\<close>

definition request_events ::
  "('k::linorder, 'v) platform \<Rightarrow> ('k, 'v) request \<Rightarrow> ('k \<times> 'v) list \<Rightarrow>
   ('k, 'v) event list \<times> ('k \<times> 'v) list" where
  "request_events p req xs =
     (case settle p req xs of
        (ErrorEvent cause, xs') \<Rightarrow> ([ErrorEvent cause, Abort], xs)
      | (ev, xs') \<Rightarrow> ([ev, Complete], xs'))"

section \<open>The wrapper: IndexedDBUtil.ts\<close>

subsection \<open>Promises and what a call leaves behind\<close>

datatype ('k, 'v) outcome = Resolved "('k, 'v) result" | Rejected error

text \<open>
  What one call of the wrapper amounts to once the engine has delivered all its events:
  how the returned promise settled (\<open>None\<close>: it never settles), how many connections the
  call opened, how many times it called \<^verbatim>\<open>db.close()\<close>, and the engine's state afterwards.
\<close>

record ('k, 'v) run =
  settled :: "('k, 'v) outcome option"
  opened :: nat
  closed :: nat
  dbs :: "('k, 'v) engine"

definition pending :: "('k, 'v) engine \<Rightarrow> ('k, 'v) run" where
  "pending e = \<lparr>settled = None, opened = 0, closed = 0, dbs = e\<rparr>"

text \<open>\<^verbatim>\<open>resolve\<close> and \<^verbatim>\<open>reject\<close> of a promise: only the first call has an effect.\<close>

definition resolve :: "('k, 'v) result \<Rightarrow> ('k, 'v) run \<Rightarrow> ('k, 'v) run" where
  "resolve r s = (if settled s = None then s\<lparr>settled := Some (Resolved r)\<rparr> else s)"

definition reject :: "error \<Rightarrow> ('k, 'v) run \<Rightarrow> ('k, 'v) run" where
  "reject e s = (if settled s = None then s\<lparr>settled := Some (Rejected e)\<rparr> else s)"

definition close :: "('k, 'v) run \<Rightarrow> ('k, 'v) run" where
  "close s = s\<lparr>closed := Suc (closed s)\<rparr>"

subsection \<open>openDB (lines 2-33)\<close>

text \<open>
  The \<^verbatim>\<open>onupgradeneeded\<close> handler of lines 24-31: create the object store unless one of
  that name exists.
\<close>

definition onupgradeneeded ::
  "name \<Rightarrow> ('k, 'v) database \<Rightarrow> error + ('k, 'v) database" where
  "onupgradeneeded storeName db =
     (if \<not> (storeName \<in> set (objectStoreNames db)) then createObjectStore storeName db
      else Inr db)"

text \<open>The version handed to \<^verbatim>\<open>indexedDB.open\<close> on line 13: \<^verbatim>\<open>newVersion ?? 1\<close>.\<close>

definition requested_version :: "nat option \<Rightarrow> nat option" where
  "requested_version newVersion = Some (case newVersion of None \<Rightarrow> 1 | Some v \<Rightarrow> v)"

definition openDB ::
  "('k, 'v) platform \<Rightarrow> name \<Rightarrow> name \<Rightarrow> nat option \<Rightarrow> ('k, 'v) engine \<Rightarrow>
   (error + connection) \<times> ('k, 'v) engine" where
  "openDB p dbName storeName newVersion e =
     (if \<not> hasIndexedDB p then (Inl (PlainError ''This browser doesn't support indexedDB''), e)
      else indexedDB_open dbName (requested_version newVersion) (onupgradeneeded storeName) e)"

text \<open>
  \<^verbatim>\<open>const db = await openDB(...)\<close> at the head of an \<^verbatim>\<open>async\<close> function: a rejected open
  rejects the function's promise with the same error; otherwise the body runs with the
  connection, which the call has opened.
\<close>

definition await_openDB ::
  "(error + connection) \<times> ('k, 'v) engine \<Rightarrow>
   (connection \<Rightarrow> ('k, 'v) engine \<Rightarrow> ('k, 'v) run) \<Rightarrow> ('k, 'v) run" where
  "await_openDB r body =
     (case r of
        (Inl err, e) \<Rightarrow> reject err (pending e)
      | (Inr db, e) \<Rightarrow> (body db e)\<lparr>opened := Suc (opened (body db e))\<rparr>)"

subsection \<open>deleteDB (lines 39-49) and getCurrentDBVersion (lines 52-67)\<close>

text \<open>
  Neither checks for the capability first: without it, naming \<^verbatim>\<open>indexedDB\<close> throws inside
  the promise's executor, which rejects the promise.
\<close>

definition deleteDB :: "('k, 'v) platform \<Rightarrow> name \<Rightarrow> ('k, 'v) engine \<Rightarrow> ('k, 'v) run" where
  "deleteDB p dbName e =
     (if \<not> hasIndexedDB p then reject (NativeError ''ReferenceError'') (pending e)
      else resolve Undefined (pending (indexedDB_deleteDatabase dbName e)))"

definition getCurrentDBVersion ::
  "('k, 'v) platform \<Rightarrow> name \<Rightarrow> ('k, 'v) engine \<Rightarrow> ('k, 'v) run" where
  "getCurrentDBVersion p dbName e =
     (if \<not> hasIndexedDB p then reject (NativeError ''ReferenceError'') (pending e)
      else
        (case indexedDB_open dbName None Inr e of
           (Inr db, e') \<Rightarrow>
             resolve (Version (conn_version db)) (close ((pending e')\<lparr>opened := 1\<rparr>))
         | (Inl err, e') \<Rightarrow> reject err (pending e')))"

subsection \<open>transactionPromise (lines 87-110)\<close>

text \<open>
  The three handlers the function registers: \<^verbatim>\<open>request.onsuccess\<close>, \<^verbatim>\<open>request.onerror\<close>
  and \<^verbatim>\<open>transaction.oncomplete\<close>. Nothing is registered for the transaction's abort.
\<close>

fun transaction_handler :: "('k, 'v) event \<Rightarrow> ('k, 'v) run \<Rightarrow> ('k, 'v) run" where
  "transaction_handler (Success r) s = resolve r s"
| "transaction_handler (ErrorEvent cause) s = reject cause s"
| "transaction_handler Complete s = close s"
| "transaction_handler Abort s = s"

text \<open>
  \<^verbatim>\<open>db.transaction\<close> and the callback run inside the promise's executor, so what they
  throw rejects the promise, before any handler is registered. The callback is given as the
  request it issues on the store; a write issued in a read-only transaction throws.
\<close>

definition transactionPromise ::
  "('k::linorder, 'v) platform \<Rightarrow> connection \<Rightarrow> name \<Rightarrow> mode \<Rightarrow> ('k, 'v) request \<Rightarrow>
   ('k, 'v) engine \<Rightarrow> ('k, 'v) run" where
  "transactionPromise p db storeName m callback e =
     (case db_transaction db storeName e of
        Inl err \<Rightarrow> reject err (pending e)
      | Inr xs \<Rightarrow>
          if m = ReadOnly \<and> is_write callback
          then reject (DOMException ''ReadOnlyError'') (pending e)
          else
            (case request_events p callback xs of
               (events, xs') \<Rightarrow>
                 fold transaction_handler events (pending (commit db storeName xs' e))))"

subsection \<open>The data operations (lines 119-228)\<close>

definition set_op ::
  "('k::linorder, 'v) platform \<Rightarrow> name \<Rightarrow> name \<Rightarrow> 'v \<Rightarrow> 'k \<Rightarrow> ('k, 'v) engine \<Rightarrow> ('k, 'v) run" where
  "set_op p dbName storeName item key e =
     await_openDB (openDB p dbName storeName None e)
       (\<lambda>db. transactionPromise p db storeName ReadWrite (Put item key))"

definition getSpecific ::
  "('k::linorder, 'v) platform \<Rightarrow> name \<Rightarrow> name \<Rightarrow> 'k \<Rightarrow> ('k, 'v) engine \<Rightarrow> ('k, 'v) run" where
  "getSpecific p dbName storeName key e =
     await_openDB (openDB p dbName storeName None e)
       (\<lambda>db. transactionPromise p db storeName ReadOnly (Get key))"

definition getAll ::
  "('k::linorder, 'v) platform \<Rightarrow> name \<Rightarrow> name \<Rightarrow> ('k, 'v) engine \<Rightarrow> ('k, 'v) run" where
  "getAll p dbName storeName e =
     await_openDB (openDB p dbName storeName None e)
       (\<lambda>db. transactionPromise p db storeName ReadOnly GetAll)"

text \<open>
  \<^verbatim>\<open>update\<close> (lines 173-199) builds its own promise. The read request gets an
  \<^verbatim>\<open>onsuccess\<close> handler only; that handler issues the write in the same transaction and
  registers the write's \<^verbatim>\<open>onsuccess\<close> and \<^verbatim>\<open>onerror\<close>, which with \<^verbatim>\<open>transaction.oncomplete\<close>
  are the three handlers of \<open>transaction_handler\<close>. Nothing is registered for the read's
  error or for the transaction's abort, so after a failed read no handler ever runs.
\<close>

definition update ::
  "('k::linorder, 'v) platform \<Rightarrow> name \<Rightarrow> name \<Rightarrow> 'v \<Rightarrow> 'k \<Rightarrow> ('k, 'v) engine \<Rightarrow> ('k, 'v) run" where
  "update p dbName storeName item key e =
     await_openDB (openDB p dbName storeName None e)
       (\<lambda>db e1.
          case db_transaction db storeName e1 of
            Inl err \<Rightarrow> reject err (pending e1)
          | Inr xs \<Rightarrow>
              (case settle p (Get key) xs of
                 (Success found, xs1) \<Rightarrow>
                   (case request_events p (Put item key) xs1 of
                      (events, xs2) \<Rightarrow>
                        fold transaction_handler events (pending (commit db storeName xs2 e1)))
               | (unhandled, xs1) \<Rightarrow> pending e1))"

definition remove_op ::
  "('k::linorder, 'v) platform \<Rightarrow> name \<Rightarrow> name \<Rightarrow> 'k \<Rightarrow> ('k, 'v) engine \<Rightarrow> ('k, 'v) run" where
  "remove_op p dbName storeName key e =
     await_openDB (openDB p dbName storeName None e)
       (\<lambda>db. transactionPromise p db storeName ReadWrite (Delete key))"

definition clear ::
  "('k::linorder, 'v) platform \<Rightarrow> name \<Rightarrow> name \<Rightarrow> ('k, 'v) engine \<Rightarrow> ('k, 'v) run" where
  "clear p dbName storeName e =
     await_openDB (openDB p dbName storeName None e)
       (\<lambda>db. transactionPromise p db storeName ReadWrite Clear)"

subsection \<open>addObjectStore (lines 71-84)\<close>

definition addObjectStore ::
  "('k::linorder, 'v) platform \<Rightarrow> name \<Rightarrow> name \<Rightarrow> 'v \<Rightarrow> 'k \<Rightarrow> ('k, 'v) engine \<Rightarrow> ('k, 'v) run" where
  "addObjectStore p dbName newStoreName item key e =
     (let inspected = getCurrentDBVersion p dbName e in
      case settled inspected of
        Some (Resolved (Version currentVersion)) \<Rightarrow>
          (let newVersion = currentVersion + 1;
               r = await_openDB (openDB p dbName newStoreName (Some newVersion) (dbs inspected))
                     (\<lambda>db. transactionPromise p db newStoreName ReadWrite (Put item key))
           in r\<lparr>opened := opened inspected + opened r, closed := closed inspected + closed r\<rparr>)
      | _ \<Rightarrow> inspected)"

subsection \<open>The exported object nfIndexedDBUtil (lines 230-240)\<close>

datatype ('k, 'v) operation =
    Call_openDB name name "nat option"
  | Call_deleteDB name
  | Call_addObjectStore name name 'v 'k
  | Call_set name name 'v 'k
  | Call_getSpecific name name 'k
  | Call_getAll name name
  | Call_update name name 'v 'k
  | Call_remove name name 'k
  | Call_clear name name

fun nfIndexedDBUtil ::
  "('k::linorder, 'v) platform \<Rightarrow> ('k, 'v) operation \<Rightarrow> ('k, 'v) engine \<Rightarrow> ('k, 'v) run" where
  "nfIndexedDBUtil p (Call_openDB dbName storeName newVersion) e =
     await_openDB (openDB p dbName storeName newVersion e) (\<lambda>db. resolve (Connection db) \<circ> pending)"
| "nfIndexedDBUtil p (Call_deleteDB dbName) e = deleteDB p dbName e"
| "nfIndexedDBUtil p (Call_addObjectStore dbName newStoreName item key) e =
     addObjectStore p dbName newStoreName item key e"
| "nfIndexedDBUtil p (Call_set dbName storeName item key) e = set_op p dbName storeName item key e"
| "nfIndexedDBUtil p (Call_getSpecific dbName storeName key) e = getSpecific p dbName storeName key e"
| "nfIndexedDBUtil p (Call_getAll dbName storeName) e = getAll p dbName storeName e"
| "nfIndexedDBUtil p (Call_update dbName storeName item key) e = update p dbName storeName item key e"
| "nfIndexedDBUtil p (Call_remove dbName storeName key) e = remove_op p dbName storeName key e"
| "nfIndexedDBUtil p (Call_clear dbName storeName) e = clear p dbName storeName e"

section \<open>Observations and example inputs\<close>

definition store_names :: "('k, 'v) engine \<Rightarrow> name \<Rightarrow> name list" where
  "store_names e n = objectStoreNames (stored e n)"

definition contents :: "('k, 'v) engine \<Rightarrow> name \<Rightarrow> name \<Rightarrow> ('k \<times> 'v) list option" where
  "contents e n s = map_of (objectStores (stored e n)) s"

text \<open>
  The inputs of the usage examples in the source's comments (database \<^verbatim>\<open>testDB\<close>, store
  \<^verbatim>\<open>testStore\<close>, item \<^verbatim>\<open>nkia\<close>), with a number for the key; a healthy platform, one
  whose engine fails every read of a single record, and one whose engine fails every write
  of a record for lack of space.
\<close>

definition no_faults :: "(nat, string) request \<Rightarrow> error option" where
  "no_faults req = None"

fun failing_reads :: "(nat, string) request \<Rightarrow> error option" where
  "failing_reads (Get k) = Some (DOMException ''UnknownError'')"
| "failing_reads req = None"

fun failing_writes :: "(nat, string) request \<Rightarrow> error option" where
  "failing_writes (Put v k) = Some (DOMException ''QuotaExceededError'')"
| "failing_writes req = None"

definition healthy :: "(nat, string) platform" where
  "healthy = \<lparr>hasIndexedDB = True, fails = no_faults\<rparr>"

definition unreadable :: "(nat, string) platform" where
  "unreadable = \<lparr>hasIndexedDB = True, fails = failing_reads\<rparr>"

definition full_disk :: "(nat, string) platform" where
  "full_disk = \<lparr>hasIndexedDB = True, fails = failing_writes\<rparr>"

definition fresh :: "(nat, string) engine" where
  "fresh = Map.empty"

definition testDB_v1 :: "(nat, string) database" where
  "testDB_v1 = \<lparr>version = 1, objectStores = [(''testStore'', [(1, ''nkia'')])]\<rparr>"

definition testDB_v2 :: "(nat, string) database" where
  "testDB_v2 =
     \<lparr>version = 2, objectStores = [(''testStore'', [(1, ''nkia'')]), (''newStore'', [(7, ''seed'')])]\<rparr>"

text \<open>
  The engine that \<^verbatim>\<open>set('testDB', 'testStore', 'nkia', 1)\<close> leaves when it starts from \<open>fresh\<close>
  (lemma \<open>populated_reached\<close>).
\<close>

definition populated :: "(nat, string) engine" where
  "populated = fresh(''testDB'' \<mapsto> testDB_v1)"

text \<open>
  The engine that \<^verbatim>\<open>addObjectStore('testDB', 'newStore', 'seed', 7)\<close> leaves when it starts
  from \<open>populated\<close> (lemma \<open>upgraded_reached\<close>).
\<close>

definition upgraded :: "(nat, string) engine" where
  "upgraded = fresh(''testDB'' \<mapsto> testDB_v2)"

lemmas engine_defs =
  objectStoreNames_def createObjectStore_def stored_def version_of_def indexedDB_open_def
  indexedDB_deleteDatabase_def db_transaction_def commit_def settle_def request_events_def

lemmas promise_defs = pending_def resolve_def reject_def close_def

lemmas wrapper_defs =
  onupgradeneeded_def requested_version_def openDB_def await_openDB_def deleteDB_def
  getCurrentDBVersion_def transactionPromise_def set_op_def getSpecific_def getAll_def
  update_def remove_op_def clear_def addObjectStore_def

lemmas example_defs =
  no_faults_def healthy_def unreadable_def full_disk_def fresh_def testDB_v1_def testDB_v2_def
  populated_def upgraded_def store_names_def contents_def

section \<open>Facts about the engine\<close>

subsection \<open>Collections\<close>

lemma map_of_put_entry: "map_of (put_entry k v xs) k = Some v"
  by (induction xs) auto

lemma delete_entry_absent: "map_of xs k = None \<Longrightarrow> delete_entry k xs = xs"
  by (induction xs) (auto split: if_splits)

lemma replace_store_same: "map_of stores s = Some xs \<Longrightarrow> replace_store s xs stores = stores"
  by (induction stores) (auto split: if_splits)

lemma map_of_replace_store:
  "map_of stores s = Some ys \<Longrightarrow> map_of (replace_store s xs stores) s = Some xs"
  by (induction stores) (auto split: if_splits)

lemma map_fst_replace_store: "map fst (replace_store s xs stores) = map fst stores"
  by (induction stores) auto

lemma map_of_named: "s \<in> set (map fst stores) \<Longrightarrow> \<exists>xs. map_of stores s = Some xs"
  by (induction stores) auto

subsection \<open>Stored databases\<close>

lemma stored_update [simp]: "stored (e(n \<mapsto> d)) m = (if m = n then d else stored e m)"
  by (simp add: stored_def)

lemma stored_Some: "e n = Some d \<Longrightarrow> stored e n = d"
  by (simp add: stored_def)

lemma version_of_update [simp]:
  "version_of (e(n \<mapsto> d)) m = (if m = n then version d else version_of e m)"
  by (simp add: version_of_def)

lemma store_names_update [simp]:
  "store_names (e(n \<mapsto> d)) m = (if m = n then objectStoreNames d else store_names e m)"
  by (simp add: store_names_def)

subsection \<open>Opening a database\<close>

lemma onupgradeneeded_present:
  "s \<in> set (objectStoreNames d) \<Longrightarrow> onupgradeneeded s d = Inr d"
  by (simp add: onupgradeneeded_def)

lemma onupgradeneeded_Inr:
  "\<exists>d'. onupgradeneeded s d = Inr d' \<and> version d' = version d \<and>
        s \<in> set (objectStoreNames d') \<and>
        objectStoreNames d' =
          (if s \<in> set (objectStoreNames d) then objectStoreNames d else objectStoreNames d @ [s])"
  by (cases "s \<in> set (objectStoreNames d)")
     (simp_all add: onupgradeneeded_def createObjectStore_def objectStoreNames_def)

lemma onupgradeneeded_version: "onupgradeneeded s d = Inr d' \<Longrightarrow> version d' = version d"
  using onupgradeneeded_Inr [of s d] by auto

lemma indexedDB_open_upgrade:
  "version (stored e n) < v \<Longrightarrow> h ((stored e n)\<lparr>version := v\<rparr>) = Inr d \<Longrightarrow>
   indexedDB_open n (Some v) h e = (Inr \<lparr>conn_name = n, conn_version = v\<rparr>, e(n \<mapsto> d))"
  by (auto simp: indexedDB_open_def Let_def)

lemma indexedDB_open_version:
  assumes "\<And>d d'. h d = Inr d' \<Longrightarrow> version d' = version d"
  shows "version_of e m \<le> version_of (snd (indexedDB_open n r h e)) m"
  using assms
  by (auto simp: indexedDB_open_def Let_def version_of_def[of e] split: sum.splits option.splits)

lemma openDB_default:
  "hasIndexedDB p \<Longrightarrow> openDB p n s None e = indexedDB_open n (Some 1) (onupgradeneeded s) e"
  by (simp add: openDB_def requested_version_def)

lemma openDB_default_above_1:
  "hasIndexedDB p \<Longrightarrow> 1 < version_of e n \<Longrightarrow>
   openDB p n s None e = (Inl (DOMException ''VersionError''), e)"
  by (simp add: openDB_def requested_version_def indexedDB_open_def version_of_def Let_def)

lemma openDB_default_at_1:
  "hasIndexedDB p \<Longrightarrow> version_of e n = 1 \<Longrightarrow>
   openDB p n s None e = (Inr \<lparr>conn_name = n, conn_version = 1\<rparr>, e)"
  by (simp add: openDB_def requested_version_def indexedDB_open_def version_of_def Let_def)

lemma openDB_default_Inr:
  assumes "openDB p n s None e = (Inr db, e1)"
  shows "hasIndexedDB p \<and> db = \<lparr>conn_name = n, conn_version = 1\<rparr> \<and> version_of e1 n = 1 \<and>
         (\<exists>d. e1 n = Some d)"
  using assms onupgradeneeded_Inr [of s "(stored e n)\<lparr>version := 1\<rparr>"]
  apply (auto simp: openDB_def requested_version_def indexedDB_open_def Let_def version_of_def
           split: if_splits sum.splits)
  apply (auto simp: stored_def split: option.splits)
  done

lemma openDB_upgrade_run:
  assumes "hasIndexedDB p" and "version_of e n < v"
  shows "\<exists>d. openDB p n s (Some v) e = (Inr \<lparr>conn_name = n, conn_version = v\<rparr>, e(n \<mapsto> d)) \<and>
          version d = v \<and> s \<in> set (objectStoreNames d) \<and>
          objectStoreNames d =
            (if s \<in> set (store_names e n) then store_names e n else store_names e n @ [s])"
proof -
  have names: "objectStoreNames ((stored e n)\<lparr>version := v\<rparr>) = store_names e n"
    by (simp add: store_names_def objectStoreNames_def)
  from onupgradeneeded_Inr [of s "(stored e n)\<lparr>version := v\<rparr>"]
  have "\<exists>d. onupgradeneeded s ((stored e n)\<lparr>version := v\<rparr>) = Inr d \<and> version d = v \<and>
          s \<in> set (objectStoreNames d) \<and>
          objectStoreNames d =
            (if s \<in> set (store_names e n) then store_names e n else store_names e n @ [s])"
    by (simp add: names cong: if_cong)
  then obtain d where
    d: "onupgradeneeded s ((stored e n)\<lparr>version := v\<rparr>) = Inr d" "version d = v"
       "s \<in> set (objectStoreNames d)"
       "objectStoreNames d =
          (if s \<in> set (store_names e n) then store_names e n else store_names e n @ [s])"
    by blast
  from assms(2) have "version (stored e n) < v"
    by (simp add: version_of_def)
  from indexedDB_open_upgrade [where h = "onupgradeneeded s", OF this d(1)] assms(1)
  have "openDB p n s (Some v) e = (Inr \<lparr>conn_name = n, conn_version = v\<rparr>, e(n \<mapsto> d))"
    by (simp add: openDB_def requested_version_def)
  with d(2,3,4) show ?thesis
    by blast
qed

lemma openDB_version: "version_of e m \<le> version_of (snd (openDB p n s v e)) m"
  using indexedDB_open_version [of "onupgradeneeded s" e m n "requested_version v"]
  by (simp add: openDB_def onupgradeneeded_version)

subsection \<open>Transactions and the promise they settle\<close>

lemma commit_same: "db_transaction db s e = Inr xs \<Longrightarrow> commit db s xs e = e"
  by (auto simp: db_transaction_def commit_def replace_store_same split: option.splits)

lemma db_transaction_commit:
  "db_transaction db s e = Inr ys \<Longrightarrow> db_transaction db s (commit db s xs e) = Inr xs"
  by (auto simp: db_transaction_def commit_def map_of_replace_store split: option.splits)

lemma db_transaction_named:
  assumes "s \<in> set (objectStoreNames d)"
  shows "\<exists>xs. db_transaction \<lparr>conn_name = n, conn_version = v\<rparr> s (e(n \<mapsto> d)) = Inr xs"
  using map_of_named [of s "objectStores d"] assms
  by (auto simp: db_transaction_def objectStoreNames_def)

lemma version_of_commit: "version_of (commit db s xs e) m = version_of e m"
  by (auto simp: version_of_def commit_def stored_def split: option.splits)

lemma store_names_commit: "store_names (commit db s xs e) m = store_names e m"
  by (auto simp: store_names_def commit_def stored_def objectStoreNames_def map_fst_replace_store
           split: option.splits)

lemma transactionPromise_run:
  assumes "db_transaction db s e = Inr xs" and "\<not> (m = ReadOnly \<and> is_write req)"
  shows "transactionPromise p db s m req e =
           (case fails p req of
              Some cause \<Rightarrow> \<lparr>settled = Some (Rejected cause), opened = 0, closed = 0, dbs = e\<rparr>
            | None \<Rightarrow> \<lparr>settled = Some (Resolved (fst (execute req xs))), opened = 0, closed = 1,
                       dbs = commit db s (snd (execute req xs)) e\<rparr>)"
  using assms commit_same [OF assms(1)]
  by (auto simp: transactionPromise_def request_events_def settle_def promise_defs
           split: option.splits)

lemma transactionPromise_no_store:
  "db_transaction db s e = Inl err \<Longrightarrow>
   transactionPromise p db s m req e = \<lparr>settled = Some (Rejected err), opened = 0, closed = 0, dbs = e\<rparr>"
  by (simp add: transactionPromise_def promise_defs)

lemma transactionPromise_version:
  "version_of (dbs (transactionPromise p db s m req e)) k = version_of e k"
  by (auto simp: transactionPromise_def request_events_def settle_def promise_defs version_of_commit
           split: sum.splits option.splits)

lemma await_openDB_rejected:
  "await_openDB (Inl err, e) body = \<lparr>settled = Some (Rejected err), opened = 0, closed = 0, dbs = e\<rparr>"
  by (simp add: await_openDB_def promise_defs)

lemma await_openDB_opened:
  "await_openDB (Inr db, e) body = (body db e)\<lparr>opened := Suc (opened (body db e))\<rparr>"
  by (simp add: await_openDB_def)

lemma await_openDB_version:
  assumes "\<And>db e1. version_of e1 m \<le> version_of (dbs (body db e1)) m"
  shows "version_of (snd r) m \<le> version_of (dbs (await_openDB r body)) m"
  using assms by (auto simp: await_openDB_def promise_defs split: prod.splits sum.splits)

lemma crud_rejected_above_1:
  "hasIndexedDB p \<Longrightarrow> 1 < version_of e n \<Longrightarrow>
   await_openDB (openDB p n s None e) body =
     \<lparr>settled = Some (Rejected (DOMException ''VersionError'')), opened = 0, closed = 0, dbs = e\<rparr>"
  by (simp add: openDB_default_above_1 await_openDB_rejected)

lemma crud_version:
  "version_of e k \<le>
   version_of (dbs (await_openDB (openDB p n s v e) (\<lambda>db. transactionPromise p db s m req))) k"
  using await_openDB_version [of k "\<lambda>db. transactionPromise p db s m req" "openDB p n s v e"]
    openDB_version [of e k p n s v]
  by (simp add: transactionPromise_version)

subsection \<open>Version inspection and addObjectStore\<close>

lemma getCurrentDBVersion_run:
  assumes "hasIndexedDB p"
  shows "\<exists>e0. getCurrentDBVersion p n e =
            \<lparr>settled = Some (Resolved (Version (version_of e0 n))), opened = 1, closed = 1, dbs = e0\<rparr> \<and>
          version_of e n \<le> version_of e0 n \<and> 0 < version_of e0 n \<and>
          store_names e0 n = store_names e n"
  using assms
  by (auto simp: getCurrentDBVersion_def promise_defs indexedDB_open_def Let_def version_of_def
        store_names_def objectStoreNames_def)

lemma getCurrentDBVersion_version:
  "version_of e k \<le> version_of (dbs (getCurrentDBVersion p n e)) k"
  using indexedDB_open_version [of Inr e k n None]
  by (auto simp: getCurrentDBVersion_def promise_defs split: prod.splits sum.splits)

lemma getCurrentDBVersion_reports:
  assumes "settled (getCurrentDBVersion p n e) = Some (Resolved (Version v))"
  shows "v = version_of (dbs (getCurrentDBVersion p n e)) n"
  using assms
  by (auto simp: getCurrentDBVersion_def promise_defs indexedDB_open_def Let_def version_of_def
           split: prod.splits sum.splits if_splits)

lemma addObjectStore_run:
  assumes "hasIndexedDB p"
  shows "\<exists>e1. version_of e n < version_of e1 n \<and> s \<in> set (store_names e1 n) \<and>
           store_names e1 n =
             (if s \<in> set (store_names e n) then store_names e n else store_names e n @ [s]) \<and>
           addObjectStore p n s item key e =
             (case fails p (Put item key) of
                Some cause \<Rightarrow> \<lparr>settled = Some (Rejected cause), opened = 2, closed = 1, dbs = e1\<rparr>
              | None \<Rightarrow> \<lparr>settled = Some (Resolved (KeyResult key)), opened = 2, closed = 2, dbs = e1\<rparr>)"
proof -
  from getCurrentDBVersion_run [OF assms, of n e] obtain e0 where
    inspected: "getCurrentDBVersion p n e =
       \<lparr>settled = Some (Resolved (Version (version_of e0 n))), opened = 1, closed = 1, dbs = e0\<rparr>"
    and e0: "version_of e n \<le> version_of e0 n" "store_names e0 n = store_names e n"
    by blast
  let ?v = "Suc (version_of e0 n)"
  from openDB_upgrade_run [OF assms, of e0 n ?v s] obtain d where
    opened: "openDB p n s (Some ?v) e0 = (Inr \<lparr>conn_name = n, conn_version = ?v\<rparr>, e0(n \<mapsto> d))"
    and d: "version d = ?v" "s \<in> set (objectStoreNames d)"
      "objectStoreNames d = (if s \<in> set (store_names e n) then store_names e n else store_names e n @ [s])"
    by (auto simp: e0)
  from db_transaction_named [OF d(2), of n ?v e0] obtain xs where
    tx: "db_transaction \<lparr>conn_name = n, conn_version = ?v\<rparr> s (e0(n \<mapsto> d)) = Inr xs"
    by blast
  let ?done = "commit \<lparr>conn_name = n, conn_version = ?v\<rparr> s (put_entry key item xs) (e0(n \<mapsto> d))"
  have run: "addObjectStore p n s item key e =
             (case fails p (Put item key) of
                Some cause \<Rightarrow> \<lparr>settled = Some (Rejected cause), opened = 2, closed = 1, dbs = e0(n \<mapsto> d)\<rparr>
              | None \<Rightarrow> \<lparr>settled = Some (Resolved (KeyResult key)), opened = 2, closed = 2, dbs = ?done\<rparr>)"
    by (simp add: addObjectStore_def Let_def inspected opened await_openDB_opened
          transactionPromise_run [OF tx] numeral_2_eq_2 split: option.splits)
  show ?thesis
  proof (cases "fails p (Put item key)")
    case None
    have "version_of e n < version_of ?done n" "store_names ?done n = objectStoreNames d"
      using e0(1) d(1) by (simp_all add: version_of_commit store_names_commit)
    with d(2,3) run None show ?thesis
      by (intro exI [of _ ?done]) simp
  next
    case (Some cause)
    have "version_of e n < version_of (e0(n \<mapsto> d)) n" "store_names (e0(n \<mapsto> d)) n = objectStoreNames d"
      using e0(1) d(1) by simp_all
    with d(2,3) run Some show ?thesis
      by (intro exI [of _ "e0(n \<mapsto> d)"]) simp
  qed
qed

lemma addObjectStore_bumps:
  assumes "settled (addObjectStore p n s item key e) = Some (Resolved x)"
  shows "version_of e n < version_of (dbs (addObjectStore p n s item key e)) n"
proof (cases "hasIndexedDB p")
  case True
  from addObjectStore_run [OF True, of e n s item key] show ?thesis
    by (auto split: option.splits)
next
  case False
  with assms show ?thesis
    by (simp add: addObjectStore_def getCurrentDBVersion_def promise_defs)
qed

lemma addObjectStore_version: "version_of e k \<le> version_of (dbs (addObjectStore p n s item key e)) k"
proof -
  let ?i = "getCurrentDBVersion p n e"
  have step: "version_of e k \<le> version_of (dbs ?i) k"
    by (rule getCurrentDBVersion_version)
  show ?thesis
    using step crud_version [of "dbs ?i" k p n s _ ReadWrite "Put item key"]
    by (auto simp: addObjectStore_def Let_def split: option.splits outcome.splits result.splits
             intro: order_trans)
qed

subsection \<open>The versions every exported operation leaves behind\<close>

lemma update_version: "version_of e k \<le> version_of (dbs (update p n s item key e)) k"
proof -
  have body: "version_of e1 k \<le> version_of (dbs (
          case db_transaction db s e1 of
            Inl err \<Rightarrow> reject err (pending e1)
          | Inr xs \<Rightarrow>
              (case settle p (Get key) xs of
                 (Success found, xs1) \<Rightarrow>
                   (case request_events p (Put item key) xs1 of
                      (events, xs2) \<Rightarrow>
                        fold transaction_handler events (pending (commit db s xs2 e1)))
               | (unhandled, xs1) \<Rightarrow> pending e1))) k" for db e1
    by (auto simp: request_events_def settle_def promise_defs version_of_commit
             split: sum.splits option.splits)
  have opening_step: "version_of e k \<le> version_of (snd (openDB p n s None e)) k"
    by (rule openDB_version)
  have body_step: "version_of (snd (openDB p n s None e)) k \<le> version_of (dbs (update p n s item key e)) k"
    unfolding update_def by (rule await_openDB_version) (rule body)
  from opening_step body_step show ?thesis
    by (rule order_trans)
qed

lemma deleteDB_version: "m \<noteq> n \<Longrightarrow> version_of (dbs (deleteDB p n e)) m = version_of e m"
  by (simp add: deleteDB_def promise_defs indexedDB_deleteDatabase_def version_of_def stored_def)

lemma nfIndexedDBUtil_version:
  assumes "op \<noteq> Call_deleteDB m"
  shows "version_of e m \<le> version_of (dbs (nfIndexedDBUtil p op e)) m"
proof (cases op)
  case (Call_openDB n s v)
  have "version_of (snd (openDB p n s v e)) m \<le>
        version_of (dbs (await_openDB (openDB p n s v e) (\<lambda>db. resolve (Connection db) \<circ> pending))) m"
    by (rule await_openDB_version) (simp add: promise_defs)
  with openDB_version [of e m p n s v] Call_openDB show ?thesis
    by simp
next
  case (Call_deleteDB n)
  with assms have "m \<noteq> n" by simp
  with Call_deleteDB show ?thesis by (simp add: deleteDB_version)
next
  case Call_addObjectStore
  then show ?thesis by (simp add: addObjectStore_version)
next
  case Call_set
  then show ?thesis by (simp add: set_op_def crud_version)
next
  case Call_getSpecific
  then show ?thesis by (simp add: getSpecific_def crud_version)
next
  case Call_getAll
  then show ?thesis by (simp add: getAll_def crud_version)
next
  case Call_update
  then show ?thesis by (simp add: update_version)
next
  case Call_remove
  then show ?thesis by (simp add: remove_op_def crud_version)
next
  case Call_clear
  then show ?thesis by (simp add: clear_def crud_version)
qed

subsection \<open>The example inputs\<close>

lemma populated_reached:
  "set_op healthy ''testDB'' ''testStore'' ''nkia'' 1 fresh =
     \<lparr>settled = Some (Resolved (KeyResult 1)), opened = 1, closed = 1, dbs = populated\<rparr>"
  by (simp add: engine_defs promise_defs wrapper_defs example_defs)

lemma upgraded_reached:
  "addObjectStore healthy ''testDB'' ''newStore'' ''seed'' 7 populated =
     \<lparr>settled = Some (Resolved (KeyResult 7)), opened = 2, closed = 2, dbs = upgraded\<rparr>"
  by (simp add: engine_defs promise_defs wrapper_defs example_defs eval_nat_numeral)

lemma version_of_populated: "version_of populated ''testDB'' = 1"
  by (simp add: version_of_def example_defs)

lemma version_of_upgraded: "version_of upgraded ''testDB'' = 2"
  by (simp add: version_of_def example_defs)

section \<open>Closing the connection\<close>

text \<open>
  The wrapper calls \<^verbatim>\<open>db.close()\<close> in \<^verbatim>\<open>transaction.oncomplete\<close> and nowhere else (lines
  106-108 and 195-197). So a data operation never closes twice, and it closes its connection
  once exactly when its promise resolves.
\<close>

lemma transactionPromise_closed:
  "closed (transactionPromise p db s m req e) \<le> 1 \<and> opened (transactionPromise p db s m req e) = 0 \<and>
   (closed (transactionPromise p db s m req e) = 1) =
     (\<exists>x. settled (transactionPromise p db s m req e) = Some (Resolved x))"
  by (auto simp: transactionPromise_def request_events_def settle_def promise_defs
           split: sum.splits option.splits)

lemma crud_closed:
  assumes "r = await_openDB (openDB p n s None e) (\<lambda>db. transactionPromise p db s m req)"
  shows "closed r \<le> 1 \<and> opened r \<le> 1 \<and> (closed r = 1) = (\<exists>x. settled r = Some (Resolved x))"
  using transactionPromise_closed [of p _ s m req]
  by (auto simp: assms await_openDB_def promise_defs split: sum.splits prod.splits)

lemma update_closed:
  "closed (update p n s item key e) \<le> 1 \<and> opened (update p n s item key e) \<le> 1 \<and>
   (closed (update p n s item key e) = 1) =
     (\<exists>x. settled (update p n s item key e) = Some (Resolved x))"
  by (auto simp: update_def await_openDB_def request_events_def settle_def promise_defs
           split: sum.splits option.splits prod.splits)

text \<open>
  Claim C1 says that every data operation closes the connection it opened exactly once,
  whether its request succeeds or fails. On the failure paths the code does not: each of the
  three calls below opens one connection and never closes it. In the first the engine fails
  the \<^verbatim>\<open>put\<close> for lack of space, the transaction aborts and \<^verbatim>\<open>oncomplete\<close> never fires; in
  the second the database has no store of the given name, so \<^verbatim>\<open>db.transaction\<close> throws before
  any handler is registered; in the third the engine fails the read inside \<^verbatim>\<open>update\<close>.
\<close>

theorem failed_operation_leaves_connection_open:
  "settled (set_op full_disk ''testDB'' ''testStore'' ''nkia'' 1 fresh) =
     Some (Rejected (DOMException ''QuotaExceededError'')) \<and>
   opened (set_op full_disk ''testDB'' ''testStore'' ''nkia'' 1 fresh) = 1 \<and>
   closed (set_op full_disk ''testDB'' ''testStore'' ''nkia'' 1 fresh) = 0 \<and>
   settled (getSpecific healthy ''testDB'' ''otherStore'' 1 populated) =
     Some (Rejected (DOMException ''NotFoundError'')) \<and>
   opened (getSpecific healthy ''testDB'' ''otherStore'' 1 populated) = 1 \<and>
   closed (getSpecific healthy ''testDB'' ''otherStore'' 1 populated) = 0 \<and>
   settled (update unreadable ''testDB'' ''testStore'' ''nkia222'' 1 populated) = None \<and>
   opened (update unreadable ''testDB'' ''testStore'' ''nkia222'' 1 populated) = 1 \<and>
   closed (update unreadable ''testDB'' ''testStore'' ''nkia222'' 1 populated) = 0"
  by (simp add: engine_defs promise_defs wrapper_defs example_defs)

section \<open>The version openDB asks for\<close>

text \<open>
  Claim C2 says that \<^verbatim>\<open>openDB\<close> without a \<^verbatim>\<open>newVersion\<close> issues the open request with no
  version, so that the engine resolves to the stored version. The code asks for version 1
  (\<^verbatim>\<open>newVersion ?? 1\<close>, line 13). On \<^verbatim>\<open>testDB\<close> as \<^verbatim>\<open>addObjectStore\<close> leaves it, at version 2,
  the engine refuses that open with a \<open>VersionError\<close> and \<^verbatim>\<open>getSpecific\<close> rejects with it,
  where an open with no version, as \<^verbatim>\<open>getCurrentDBVersion\<close> issues it on line 54, connects at
  the stored version 2.
\<close>

theorem default_open_refused_after_upgrade:
  "requested_version None = Some 1 \<and>
   openDB healthy ''testDB'' ''testStore'' None upgraded =
     (Inl (DOMException ''VersionError''), upgraded) \<and>
   settled (getSpecific healthy ''testDB'' ''testStore'' 1 upgraded) =
     Some (Rejected (DOMException ''VersionError'')) \<and>
   indexedDB_open ''testDB'' None (onupgradeneeded ''testStore'') upgraded =
     (Inr \<lparr>conn_name = ''testDB'', conn_version = 2\<rparr>, upgraded)"
  by (simp add: engine_defs promise_defs wrapper_defs example_defs)

section \<open>Request errors and the returned promise\<close>

text \<open>
  Claim C3 says that a request error inside the transaction rejects the returned promise
  with the error's cause, for every data operation including \<^verbatim>\<open>update\<close>. With an engine that
  fails the read of a record, \<^verbatim>\<open>getSpecific\<close> rejects with the cause, as
  \<^verbatim>\<open>transactionPromise\<close> registers \<^verbatim>\<open>request.onerror\<close>; \<^verbatim>\<open>update\<close> registers no \<^verbatim>\<open>onerror\<close>
  on its read request and its promise never settles.
\<close>

theorem update_swallows_read_error:
  "settled (getSpecific unreadable ''testDB'' ''testStore'' 1 fresh) =
     Some (Rejected (DOMException ''UnknownError'')) \<and>
   settled (update unreadable ''testDB'' ''testStore'' ''nkia222'' 1 fresh) = None"
  by (simp add: engine_defs promise_defs wrapper_defs example_defs)

section \<open>Writing a record and reading it back\<close>

lemma set_op_resolved:
  assumes "settled (set_op p n s item key e) = Some (Resolved r)"
  shows "hasIndexedDB p \<and> version_of (dbs (set_op p n s item key e)) n = 1 \<and>
         (\<exists>xs. db_transaction \<lparr>conn_name = n, conn_version = 1\<rparr> s (dbs (set_op p n s item key e)) = Inr xs
               \<and> map_of xs key = Some item)"
proof (cases "openDB p n s None e")
  case (Pair c e1)
  show ?thesis
  proof (cases c)
    case (Inl err)
    with Pair assms show ?thesis
      by (simp add: set_op_def await_openDB_rejected)
  next
    case (Inr db)
    with Pair have opened: "openDB p n s None e = (Inr db, e1)" by simp
    from openDB_default_Inr [OF opened]
    have p: "hasIndexedDB p" and db: "db = \<lparr>conn_name = n, conn_version = 1\<rparr>"
      and v: "version_of e1 n = 1" by auto
    show ?thesis
    proof (cases "db_transaction db s e1")
      case (Inl err)
      with opened assms show ?thesis
        by (simp add: set_op_def await_openDB_opened transactionPromise_no_store)
    next
      case (Inr xs)
      have run: "set_op p n s item key e =
        (transactionPromise p db s ReadWrite (Put item key) e1)
          \<lparr>opened := Suc (opened (transactionPromise p db s ReadWrite (Put item key) e1))\<rparr>"
        using opened by (simp add: set_op_def await_openDB_opened)
      from assms have healthy: "fails p (Put item key) = None"
        by (cases "fails p (Put item key)") (simp_all add: run transactionPromise_run [OF Inr])
      have final: "dbs (set_op p n s item key e) = commit db s (put_entry key item xs) e1"
        by (simp add: run transactionPromise_run [OF Inr] healthy)
      show ?thesis
        using p v db db_transaction_commit [OF Inr, of "put_entry key item xs"]
        by (simp add: final version_of_commit map_of_put_entry)
    qed
  qed
qed

text \<open>
  Claim C4. For any item and key: after a \<^verbatim>\<open>set(db, coll, item, key)\<close> that resolved,
  \<^verbatim>\<open>getSpecific(db, coll, key)\<close> on the engine state the \<^verbatim>\<open>set\<close> left resolves with the item
  that was written, provided the engine does not fail the read request.
\<close>

theorem set_then_getSpecific:
  assumes "settled (set_op p n s item key e) = Some (Resolved r)"
    and "fails p (Get key) = None"
  shows "settled (getSpecific p n s key (dbs (set_op p n s item key e))) =
           Some (Resolved (Item item))"
proof -
  from set_op_resolved [OF assms(1)] obtain xs where
    p: "hasIndexedDB p" and
    v: "version_of (dbs (set_op p n s item key e)) n = 1" and
    tx: "db_transaction \<lparr>conn_name = n, conn_version = 1\<rparr> s (dbs (set_op p n s item key e)) = Inr xs" and
    found: "map_of xs key = Some item"
    by blast
  show ?thesis
    by (simp add: getSpecific_def openDB_default_at_1 [OF p v] await_openDB_opened
          transactionPromise_run [OF tx] assms(2) found del: One_nat_def)
qed

theorem set_then_getSpecific_witness:
  "settled (set_op healthy ''testDB'' ''testStore'' ''nkia'' 1 fresh) = Some (Resolved (KeyResult 1)) \<and>
   fails healthy (Get 1) = None \<and>
   settled (getSpecific healthy ''testDB'' ''testStore'' 1
              (dbs (set_op healthy ''testDB'' ''testStore'' ''nkia'' 1 fresh))) =
     Some (Resolved (Item ''nkia''))"
proof -
  have h1: "settled (set_op healthy ''testDB'' ''testStore'' ''nkia'' 1 fresh) = Some (Resolved (KeyResult 1))"
    using populated_reached by simp
  have h2: "fails healthy (Get 1) = None" by (simp add: healthy_def no_faults_def)
  from set_then_getSpecific [OF h1 h2] h1 h2 show ?thesis by simp
qed

section \<open>update and set\<close>

text \<open>
  Unless the engine fails the read, \<^verbatim>\<open>update\<close> does what \<^verbatim>\<open>set\<close> does, whether or not the key
  is present: the same settlement, the same connections opened and closed and the same final
  engine state. On a database at version 1 that has the store, with an engine that fails
  neither request, it resolves with the key.
\<close>

lemma update_eq_set_op:
  "fails p (Get key) = None \<Longrightarrow> update p n s item key e = set_op p n s item key e"
  by (auto simp: update_def set_op_def await_openDB_def transactionPromise_def settle_def
           split: prod.splits sum.splits)

lemma update_absent_key:
  assumes "hasIndexedDB p" and "version_of e n = 1"
    and "db_transaction \<lparr>conn_name = n, conn_version = 1\<rparr> s e = Inr xs"
    and "fails p (Get key) = None" and "fails p (Put item key) = None"
  shows "settled (update p n s item key e) = Some (Resolved (KeyResult key))"
  by (simp add: update_eq_set_op [OF assms(4)] set_op_def openDB_default_at_1 [OF assms(1,2)]
        await_openDB_opened transactionPromise_run [OF assms(3)] assms(5) del: One_nat_def)

text \<open>
  Claim C5 says that \<^verbatim>\<open>update\<close> with a key that is not in the collection succeeds and
  leaves the outcome and the collection that \<^verbatim>\<open>set\<close> leaves. In \<^verbatim>\<open>testDB\<close> at version 2 the
  store \<^verbatim>\<open>newStore\<close> holds key 7 only; \<^verbatim>\<open>update\<close> with key 3 on a healthy platform does not
  succeed: it rejects with the \<open>VersionError\<close> of the open at version 1.
\<close>

theorem update_rejected_after_upgrade:
  "contents upgraded ''testDB'' ''newStore'' = Some [(7, ''seed'')] \<and>
   map_of [(7::nat, ''seed'')] 3 = None \<and>
   settled (update healthy ''testDB'' ''newStore'' ''nkia'' 3 upgraded) =
     Some (Rejected (DOMException ''VersionError''))"
  by (simp add: engine_defs promise_defs wrapper_defs example_defs)

section \<open>Creating a store twice\<close>

text \<open>
  Claim C6. The upgrade handler of \<^verbatim>\<open>openDB\<close> returns the database unchanged, without an
  error, when the store already exists; run a second time on its own result it changes
  nothing. Two calls of \<^verbatim>\<open>addObjectStore\<close> in a row with the same store name, on a platform
  that has the engine and whose engine fails neither write, both resolve; the second leaves
  the list of store names as the first left it, and the first adds the name only if it
  was not there.
\<close>

theorem migration_twice:
  "(s \<in> set (objectStoreNames d) \<longrightarrow> onupgradeneeded s d = Inr d) \<and>
   (\<exists>d1. onupgradeneeded s d = Inr d1 \<and> onupgradeneeded s d1 = Inr d1) \<and>
   (hasIndexedDB p \<and> fails p (Put item key) = None \<and> fails p (Put item' key') = None \<longrightarrow>
      settled (addObjectStore p n s item key e) = Some (Resolved (KeyResult key)) \<and>
      settled (addObjectStore p n s item' key' (dbs (addObjectStore p n s item key e))) =
        Some (Resolved (KeyResult key')) \<and>
      store_names (dbs (addObjectStore p n s item' key' (dbs (addObjectStore p n s item key e)))) n =
        store_names (dbs (addObjectStore p n s item key e)) n \<and>
      store_names (dbs (addObjectStore p n s item key e)) n =
        (if s \<in> set (store_names e n) then store_names e n else store_names e n @ [s]))"
proof (intro conjI impI)
  assume "s \<in> set (objectStoreNames d)"
  then show "onupgradeneeded s d = Inr d"
    by (rule onupgradeneeded_present)
next
  from onupgradeneeded_Inr [of s d] obtain d1 where
    d1: "onupgradeneeded s d = Inr d1" "s \<in> set (objectStoreNames d1)"
    by blast
  from d1(2) have "onupgradeneeded s d1 = Inr d1"
    by (rule onupgradeneeded_present)
  with d1(1) show "\<exists>d1. onupgradeneeded s d = Inr d1 \<and> onupgradeneeded s d1 = Inr d1"
    by blast
next
  assume h: "hasIndexedDB p \<and> fails p (Put item key) = None \<and> fails p (Put item' key') = None"
  let ?first = "addObjectStore p n s item key e"
  let ?second = "addObjectStore p n s item' key' (dbs ?first)"
  from h have p: "hasIndexedDB p" by simp
  from addObjectStore_run [OF p, of e n s item key] h obtain e1 where
    first: "?first = \<lparr>settled = Some (Resolved (KeyResult key)), opened = 2, closed = 2, dbs = e1\<rparr>"
    and e1: "s \<in> set (store_names e1 n)"
      "store_names e1 n = (if s \<in> set (store_names e n) then store_names e n else store_names e n @ [s])"
    by auto
  from addObjectStore_run [OF p, of e1 n s item' key'] h e1(1) obtain e2 where
    second: "addObjectStore p n s item' key' e1 =
       \<lparr>settled = Some (Resolved (KeyResult key')), opened = 2, closed = 2, dbs = e2\<rparr>"
    and e2: "store_names e2 n = store_names e1 n"
    by auto
  show "settled ?first = Some (Resolved (KeyResult key))"
    by (simp add: first)
  show "settled ?second = Some (Resolved (KeyResult key'))"
    by (simp add: first second)
  show "store_names (dbs ?second) n = store_names (dbs ?first) n"
    by (simp add: first second e2)
  show "store_names (dbs ?first) n =
        (if s \<in> set (store_names e n) then store_names e n else store_names e n @ [s])"
    by (simp add: first e1(2))
qed

theorem migration_twice_witness:
  "''newStore'' \<in> set (objectStoreNames testDB_v2) \<and>
   onupgradeneeded ''newStore'' testDB_v2 = Inr testDB_v2 \<and>
   hasIndexedDB healthy \<and> fails healthy (Put ''seed'' 7) = None \<and>
   fails healthy (Put ''again'' 8) = None \<and>
   settled (addObjectStore healthy ''testDB'' ''newStore'' ''again'' 8
     (dbs (addObjectStore healthy ''testDB'' ''newStore'' ''seed'' 7 populated))) =
     Some (Resolved (KeyResult 8)) \<and>
   store_names (dbs (addObjectStore healthy ''testDB'' ''newStore'' ''again'' 8
     (dbs (addObjectStore healthy ''testDB'' ''newStore'' ''seed'' 7 populated)))) ''testDB'' =
     [''testStore'', ''newStore'']"
proof -
  have h1: "''newStore'' \<in> set (objectStoreNames testDB_v2)"
    by (simp add: objectStoreNames_def testDB_v2_def)
  have h2: "hasIndexedDB healthy \<and> fails healthy (Put ''seed'' 7) = None \<and>
            fails healthy (Put ''again'' 8) = None"
    by (simp add: healthy_def no_faults_def)
  have names: "store_names populated ''testDB'' = [''testStore'']"
    by (simp add: example_defs engine_defs)
  note all = migration_twice [where s = "''newStore''" and d = testDB_v2 and p = healthy
      and item = "''seed''" and key = 7 and item' = "''again''" and key' = 8
      and n = "''testDB''" and e = populated]
  from all h1 have skipped: "onupgradeneeded ''newStore'' testDB_v2 = Inr testDB_v2"
    by blast
  from all h2 have
    resolved: "settled (addObjectStore healthy ''testDB'' ''newStore'' ''again'' 8
       (dbs (addObjectStore healthy ''testDB'' ''newStore'' ''seed'' 7 populated))) =
       Some (Resolved (KeyResult 8))"
    and same: "store_names (dbs (addObjectStore healthy ''testDB'' ''newStore'' ''again'' 8
       (dbs (addObjectStore healthy ''testDB'' ''newStore'' ''seed'' 7 populated)))) ''testDB'' =
       store_names (dbs (addObjectStore healthy ''testDB'' ''newStore'' ''seed'' 7 populated)) ''testDB''"
    and once: "store_names (dbs (addObjectStore healthy ''testDB'' ''newStore'' ''seed'' 7 populated)) ''testDB'' =
       (if ''newStore'' \<in> set (store_names populated ''testDB'') then store_names populated ''testDB''
        else store_names populated ''testDB'' @ [''newStore''])"
    by blast+
  from same once names have
    "store_names (dbs (addObjectStore healthy ''testDB'' ''newStore'' ''again'' 8
       (dbs (addObjectStore healthy ''testDB'' ''newStore'' ''seed'' 7 populated)))) ''testDB'' =
     [''testStore'', ''newStore'']"
    by simp
  with h1 h2 skipped resolved show ?thesis
    by (simp only: simp_thms)
qed

section \<open>Schema versions\<close>

text \<open>
  \<^verbatim>\<open>deleteDB\<close> ends a database's lifetime: on a platform that has the engine no database of
  that name is left, and every other database is untouched.
\<close>

lemma deleteDB_dbs:
  "dbs (deleteDB p n e) m = (if hasIndexedDB p \<and> m = n then None else e m)"
  by (simp add: deleteDB_def promise_defs indexedDB_deleteDatabase_def)

lemma nfIndexedDBUtil_keeps_version:
  assumes "e m = Some d" and "dbs (nfIndexedDBUtil p op e) m = Some d'"
  shows "version d \<le> version d'"
proof (cases "op = Call_deleteDB m")
  case True
  with assms show ?thesis
    by (simp add: deleteDB_dbs split: if_splits)
next
  case False
  then have "version_of e m \<le> version_of (dbs (nfIndexedDBUtil p op e)) m"
    by (rule nfIndexedDBUtil_version)
  with assms show ?thesis
    by (simp add: version_of_def stored_def)
qed

lemma getCurrentDBVersion_keeps_version:
  assumes "e m = Some d" and "dbs (getCurrentDBVersion p n e) m = Some d'"
  shows "version d \<le> version d'"
  using getCurrentDBVersion_version [of e m p n] assms
  by (simp add: version_of_def stored_def)

text \<open>
  Claim C7. When a version inspection, a resolved \<^verbatim>\<open>addObjectStore\<close> and a second version
  inspection of the same database follow one another, the second inspection reports a
  strictly greater version than the first. More generally, across every exported operation
  (\<^verbatim>\<open>deleteDB\<close> included) and across the version inspection, a database that is there before
  the call and after it has a version at least as great as before; \<^verbatim>\<open>deleteDB\<close> of a database
  ends its lifetime, leaving no database of that name.
\<close>

theorem version_never_decreases:
  "(settled (getCurrentDBVersion p0 n e) = Some (Resolved (Version v0)) \<and>
    settled (addObjectStore p n s item key (dbs (getCurrentDBVersion p0 n e))) = Some (Resolved x) \<and>
    settled (getCurrentDBVersion p1 n
      (dbs (addObjectStore p n s item key (dbs (getCurrentDBVersion p0 n e))))) =
      Some (Resolved (Version v1))
    \<longrightarrow> v0 < v1) \<and>
   (e' m = Some d \<and> dbs (nfIndexedDBUtil p' op e') m = Some d' \<longrightarrow> version d \<le> version d') \<and>
   (e' m = Some d \<and> dbs (getCurrentDBVersion p' n' e') m = Some d'' \<longrightarrow> version d \<le> version d'') \<and>
   (hasIndexedDB p' \<longrightarrow> dbs (nfIndexedDBUtil p' (Call_deleteDB m) e') m = None)"
proof (intro conjI impI)
  let ?e0 = "dbs (getCurrentDBVersion p0 n e)"
  let ?e1 = "dbs (addObjectStore p n s item key ?e0)"
  let ?e2 = "dbs (getCurrentDBVersion p1 n ?e1)"
  assume h: "settled (getCurrentDBVersion p0 n e) = Some (Resolved (Version v0)) \<and>
    settled (addObjectStore p n s item key ?e0) = Some (Resolved x) \<and>
    settled (getCurrentDBVersion p1 n ?e1) = Some (Resolved (Version v1))"
  from h have before: "v0 = version_of ?e0 n"
    by (intro getCurrentDBVersion_reports) simp
  from h have after: "v1 = version_of ?e2 n"
    by (intro getCurrentDBVersion_reports) simp
  from h have "version_of ?e0 n < version_of ?e1 n"
    by (intro addObjectStore_bumps [of _ _ _ _ _ _ x]) simp
  also have "version_of ?e1 n \<le> version_of ?e2 n"
    by (rule getCurrentDBVersion_version)
  finally show "v0 < v1"
    by (simp add: before after)
next
  assume "e' m = Some d \<and> dbs (nfIndexedDBUtil p' op e') m = Some d'"
  then show "version d \<le> version d'"
    using nfIndexedDBUtil_keeps_version [of e' m d p' op d'] by simp
next
  assume "e' m = Some d \<and> dbs (getCurrentDBVersion p' n' e') m = Some d''"
  then show "version d \<le> version d''"
    using getCurrentDBVersion_keeps_version [of e' m d p' n' d''] by simp
next
  assume "hasIndexedDB p'"
  then show "dbs (nfIndexedDBUtil p' (Call_deleteDB m) e') m = None"
    by (simp add: deleteDB_dbs)
qed

theorem version_never_decreases_witness:
  "settled (getCurrentDBVersion healthy ''testDB'' populated) = Some (Resolved (Version 1)) \<and>
   settled (addObjectStore healthy ''testDB'' ''newStore'' ''seed'' 7
     (dbs (getCurrentDBVersion healthy ''testDB'' populated))) = Some (Resolved (KeyResult 7)) \<and>
   settled (getCurrentDBVersion healthy ''testDB''
     (dbs (addObjectStore healthy ''testDB'' ''newStore'' ''seed'' 7
       (dbs (getCurrentDBVersion healthy ''testDB'' populated))))) = Some (Resolved (Version 2)) \<and>
   (1::nat) < 2 \<and>
   populated ''testDB'' = Some testDB_v1 \<and>
   dbs (nfIndexedDBUtil healthy (Call_addObjectStore ''testDB'' ''newStore'' ''seed'' 7) populated)
     ''testDB'' = Some testDB_v2 \<and>
   version testDB_v1 \<le> version testDB_v2 \<and>
   dbs (nfIndexedDBUtil healthy (Call_deleteDB ''otherDB'') populated) ''testDB'' = Some testDB_v1 \<and>
   version testDB_v1 \<le> version testDB_v1 \<and>
   dbs (getCurrentDBVersion healthy ''testDB'' populated) ''testDB'' = Some testDB_v1 \<and>
   hasIndexedDB healthy \<and>
   dbs (nfIndexedDBUtil healthy (Call_deleteDB ''testDB'') populated) ''testDB'' = None"
proof -
  have inspected: "getCurrentDBVersion healthy ''testDB'' populated =
      \<lparr>settled = Some (Resolved (Version 1)), opened = 1, closed = 1, dbs = populated\<rparr>"
    by (simp add: engine_defs promise_defs wrapper_defs example_defs)
  have again: "getCurrentDBVersion healthy ''testDB'' upgraded =
      \<lparr>settled = Some (Resolved (Version 2)), opened = 1, closed = 1, dbs = upgraded\<rparr>"
    by (simp add: engine_defs promise_defs wrapper_defs example_defs)
  have h1: "settled (getCurrentDBVersion healthy ''testDB'' populated) = Some (Resolved (Version 1)) \<and>
   settled (addObjectStore healthy ''testDB'' ''newStore'' ''seed'' 7
     (dbs (getCurrentDBVersion healthy ''testDB'' populated))) = Some (Resolved (KeyResult 7)) \<and>
   settled (getCurrentDBVersion healthy ''testDB''
     (dbs (addObjectStore healthy ''testDB'' ''newStore'' ''seed'' 7
       (dbs (getCurrentDBVersion healthy ''testDB'' populated))))) = Some (Resolved (Version 2))"
    using upgraded_reached by (simp add: inspected again)
  have before: "populated ''testDB'' = Some testDB_v1"
    by (simp add: populated_def)
  have added: "dbs (nfIndexedDBUtil healthy (Call_addObjectStore ''testDB'' ''newStore'' ''seed'' 7)
      populated) ''testDB'' = Some testDB_v2"
    using upgraded_reached by (simp add: upgraded_def)
  have other: "dbs (nfIndexedDBUtil healthy (Call_deleteDB ''otherDB'') populated) ''testDB'' =
      Some testDB_v1"
    by (simp add: deleteDB_dbs populated_def)
  have same: "dbs (getCurrentDBVersion healthy ''testDB'' populated) ''testDB'' = Some testDB_v1"
    unfolding inspected by (simp add: populated_def)
  have h5: "hasIndexedDB healthy"
    by (simp add: healthy_def)
  note add = version_never_decreases [where ?p0.0 = healthy and p = healthy and ?p1.0 = healthy
      and n = "''testDB''" and e = populated and s = "''newStore''" and item = "''seed''" and key = 7
      and ?v0.0 = 1 and ?v1.0 = 2 and x = "KeyResult 7"
      and op = "Call_addObjectStore ''testDB'' ''newStore'' ''seed'' 7" and m = "''testDB''"
      and p' = healthy and e' = populated and d = testDB_v1 and d' = testDB_v2
      and n' = "''testDB''" and d'' = testDB_v1]
  note del = version_never_decreases [where op = "Call_deleteDB ''otherDB''" and m = "''testDB''"
      and p' = healthy and e' = populated and d = testDB_v1 and d' = testDB_v1]
  from add h1 have less: "(1::nat) < 2"
    by blast
  from add before added have grown: "version testDB_v1 \<le> version testDB_v2"
    by blast
  from del before other have kept: "version testDB_v1 \<le> version testDB_v1"
    by blast
  from add h5 have gone:
    "dbs (nfIndexedDBUtil healthy (Call_deleteDB ''testDB'') populated) ''testDB'' = None"
    by blast
  from h1 less before added grown other kept same h5 gone show ?thesis
    by blast
qed

section \<open>Removing an absent key\<close>

text \<open>
  On a database at version 1 that has the store, \<^verbatim>\<open>remove\<close> of a key the store does not hold
  resolves and leaves the whole engine as it was, unless the engine fails the request.
\<close>

lemma remove_op_absent_key:
  assumes "hasIndexedDB p" and "version_of e n = 1"
    and "db_transaction \<lparr>conn_name = n, conn_version = 1\<rparr> s e = Inr xs"
    and "map_of xs key = None" and "fails p (Delete key) = None"
  shows "remove_op p n s key e = \<lparr>settled = Some (Resolved Undefined), opened = 1, closed = 1, dbs = e\<rparr>"
  using commit_same [OF assms(3)]
  by (simp add: remove_op_def openDB_default_at_1 [OF assms(1,2)] await_openDB_opened
        transactionPromise_run [OF assms(3)] assms(4,5) delete_entry_absent del: One_nat_def)

text \<open>
  Claim C8 says that \<^verbatim>\<open>remove\<close> of an absent key resolves and leaves the collection
  unchanged. In \<^verbatim>\<open>testDB\<close> at version 2 the store \<^verbatim>\<open>newStore\<close> holds key 7 only; \<^verbatim>\<open>remove\<close>
  of key 3 on a healthy platform rejects with the \<open>VersionError\<close> of the open at version 1.
\<close>

theorem remove_rejected_after_upgrade:
  "contents upgraded ''testDB'' ''newStore'' = Some [(7, ''seed'')] \<and>
   map_of [(7::nat, ''seed'')] 3 = None \<and>
   settled (remove_op healthy ''testDB'' ''newStore'' 3 upgraded) =
     Some (Rejected (DOMException ''VersionError''))"
  by (simp add: engine_defs promise_defs wrapper_defs example_defs)

section \<open>The default version of openDB\<close>

text \<open>
  Claim C9. \<^verbatim>\<open>openDB\<close> called without a \<^verbatim>\<open>newVersion\<close> always hands version 1 to the engine
  (\<^verbatim>\<open>newVersion ?? 1\<close>, line 13): on every engine state, a platform that has the engine gets
  exactly the engine's open at version 1 with the handler of lines 24-31, and a platform
  without it gets the rejection of lines 7-11. So for a database whose stored version is
  above 1, each of \<^verbatim>\<open>set\<close>, \<^verbatim>\<open>getSpecific\<close>, \<^verbatim>\<open>getAll\<close>, \<^verbatim>\<open>update\<close>, \<^verbatim>\<open>remove\<close> and \<^verbatim>\<open>clear\<close>
  rejects when it opens, with the engine's \<open>VersionError\<close>: no connection is opened and the
  engine is left as it was.
\<close>

theorem default_open_requests_version_1:
  "requested_version None = Some 1 \<and>
   openDB p n s None e0 =
     (if hasIndexedDB p then indexedDB_open n (Some 1) (onupgradeneeded s) e0
      else (Inl (PlainError ''This browser doesn't support indexedDB''), e0)) \<and>
   (hasIndexedDB p \<and> 1 < version_of e n \<longrightarrow>
      (\<forall>r \<in> {set_op p n s item key e, getSpecific p n s key e, getAll p n s e,
               update p n s item key e, remove_op p n s key e, clear p n s e}.
          settled r = Some (Rejected (DOMException ''VersionError'')) \<and> opened r = 0 \<and> dbs r = e))"
proof (intro conjI impI)
  show "requested_version None = Some 1"
    by (simp add: requested_version_def)
next
  show "openDB p n s None e0 =
     (if hasIndexedDB p then indexedDB_open n (Some 1) (onupgradeneeded s) e0
      else (Inl (PlainError ''This browser doesn't support indexedDB''), e0))"
    by (simp add: openDB_def requested_version_def)
next
  assume h: "hasIndexedDB p \<and> 1 < version_of e n"
  then have above: "hasIndexedDB p" "1 < version_of e n"
    by simp_all
  show "\<forall>r \<in> {set_op p n s item key e, getSpecific p n s key e, getAll p n s e,
               update p n s item key e, remove_op p n s key e, clear p n s e}.
          settled r = Some (Rejected (DOMException ''VersionError'')) \<and> opened r = 0 \<and> dbs r = e"
    by (simp add: set_op_def getSpecific_def getAll_def update_def remove_op_def clear_def
          crud_rejected_above_1 [OF above])
qed

theorem default_open_requests_version_1_witness:
  "openDB healthy ''testDB'' ''testStore'' None fresh =
     indexedDB_open ''testDB'' (Some 1) (onupgradeneeded ''testStore'') fresh \<and>
   openDB healthy ''testDB'' ''testStore'' None fresh =
     (Inr \<lparr>conn_name = ''testDB'', conn_version = 1\<rparr>,
      fresh(''testDB'' \<mapsto> \<lparr>version = 1, objectStores = [(''testStore'', [])]\<rparr>)) \<and>
   hasIndexedDB healthy \<and> 1 < version_of upgraded ''testDB'' \<and>
   requested_version None = Some 1 \<and>
   settled (set_op healthy ''testDB'' ''newStore'' ''nkia'' 1 upgraded) =
     Some (Rejected (DOMException ''VersionError'')) \<and>
   settled (getSpecific healthy ''testDB'' ''newStore'' 1 upgraded) =
     Some (Rejected (DOMException ''VersionError'')) \<and>
   settled (getAll healthy ''testDB'' ''newStore'' upgraded) =
     Some (Rejected (DOMException ''VersionError'')) \<and>
   settled (update healthy ''testDB'' ''newStore'' ''nkia'' 1 upgraded) =
     Some (Rejected (DOMException ''VersionError'')) \<and>
   settled (remove_op healthy ''testDB'' ''newStore'' 1 upgraded) =
     Some (Rejected (DOMException ''VersionError'')) \<and>
   settled (clear healthy ''testDB'' ''newStore'' upgraded) =
     Some (Rejected (DOMException ''VersionError''))"
proof -
  have h1: "hasIndexedDB healthy" by (simp add: healthy_def)
  have h2: "1 < version_of upgraded ''testDB''" by (simp add: version_of_upgraded)
  note all = default_open_requests_version_1
    [where p = healthy and n = "''testDB''" and e = upgraded and ?e0.0 = fresh
       and item = "''nkia''" and key = 1]
  from all [where s = "''testStore''"] have
    "openDB healthy ''testDB'' ''testStore'' None fresh =
       (if hasIndexedDB healthy
        then indexedDB_open ''testDB'' (Some 1) (onupgradeneeded ''testStore'') fresh
        else (Inl (PlainError ''This browser doesn't support indexedDB''), fresh))"
    by (rule conjunct2 [THEN conjunct1])
  with h1 have asked:
    "openDB healthy ''testDB'' ''testStore'' None fresh =
       indexedDB_open ''testDB'' (Some 1) (onupgradeneeded ''testStore'') fresh"
    by simp
  have created: "indexedDB_open ''testDB'' (Some 1) (onupgradeneeded ''testStore'') fresh =
     (Inr \<lparr>conn_name = ''testDB'', conn_version = 1\<rparr>,
      fresh(''testDB'' \<mapsto> \<lparr>version = 1, objectStores = [(''testStore'', [])]\<rparr>))"
    by (simp add: engine_defs onupgradeneeded_def fresh_def)
  from all [where s = "''newStore''"] have requested: "requested_version None = Some 1"
    by (rule conjunct1)
  from all [where s = "''newStore''"] have above:
    "hasIndexedDB healthy \<and> 1 < version_of upgraded ''testDB'' \<longrightarrow>
     (\<forall>r \<in> {set_op healthy ''testDB'' ''newStore'' ''nkia'' 1 upgraded,
      getSpecific healthy ''testDB'' ''newStore'' 1 upgraded, getAll healthy ''testDB'' ''newStore'' upgraded,
      update healthy ''testDB'' ''newStore'' ''nkia'' 1 upgraded,
      remove_op healthy ''testDB'' ''newStore'' 1 upgraded, clear healthy ''testDB'' ''newStore'' upgraded}.
      settled r = Some (Rejected (DOMException ''VersionError'')) \<and> opened r = 0 \<and> dbs r = upgraded)"
    by (rule conjunct2 [THEN conjunct2])
  have each:
    "\<forall>r \<in> {set_op healthy ''testDB'' ''newStore'' ''nkia'' 1 upgraded,
      getSpecific healthy ''testDB'' ''newStore'' 1 upgraded, getAll healthy ''testDB'' ''newStore'' upgraded,
      update healthy ''testDB'' ''newStore'' ''nkia'' 1 upgraded,
      remove_op healthy ''testDB'' ''newStore'' 1 upgraded, clear healthy ''testDB'' ''newStore'' upgraded}.
      settled r = Some (Rejected (DOMException ''VersionError'')) \<and> opened r = 0 \<and> dbs r = upgraded"
    by (rule mp [OF above conjI [OF h1 h2]])
  have "settled (set_op healthy ''testDB'' ''newStore'' ''nkia'' 1 upgraded) =
     Some (Rejected (DOMException ''VersionError''))"
    using each by (simp only: ball_simps simp_thms)
  moreover have "settled (getSpecific healthy ''testDB'' ''newStore'' 1 upgraded) =
     Some (Rejected (DOMException ''VersionError''))"
    using each by (simp only: ball_simps simp_thms)
  moreover have "settled (getAll healthy ''testDB'' ''newStore'' upgraded) =
     Some (Rejected (DOMException ''VersionError''))"
    using each by (simp only: ball_simps simp_thms)
  moreover have "settled (update healthy ''testDB'' ''newStore'' ''nkia'' 1 upgraded) =
     Some (Rejected (DOMException ''VersionError''))"
    using each by (simp only: ball_simps simp_thms)
  moreover have "settled (remove_op healthy ''testDB'' ''newStore'' 1 upgraded) =
     Some (Rejected (DOMException ''VersionError''))"
    using each by (simp only: ball_simps simp_thms)
  moreover have "settled (clear healthy ''testDB'' ''newStore'' upgraded) =
     Some (Rejected (DOMException ''VersionError''))"
    using each by (simp only: ball_simps simp_thms)
  ultimately show ?thesis
    using h1 h2 requested asked created by (simp only: simp_thms)
qed

section \<open>A failed read inside update\<close>

text \<open>
  Claim C10. When \<^verbatim>\<open>update\<close> has opened its connection and begun its transaction, and the
  engine settles the initial \<^verbatim>\<open>get\<close> with an error, the promise \<^verbatim>\<open>update\<close> returned never
  settles: it neither resolves nor rejects.
\<close>

theorem update_read_error_never_settles:
  assumes "openDB p n s None e = (Inr db, e1)"
    and "db_transaction db s e1 = Inr xs"
    and "settle p (Get key) xs = (ErrorEvent cause, xs')"
  shows "settled (update p n s item key e) = None"
  using assms by (simp add: update_def await_openDB_def pending_def)

theorem update_read_error_never_settles_witness:
  "openDB unreadable ''testDB'' ''testStore'' None populated =
     (Inr \<lparr>conn_name = ''testDB'', conn_version = 1\<rparr>, populated) \<and>
   db_transaction \<lparr>conn_name = ''testDB'', conn_version = 1\<rparr> ''testStore'' populated =
     Inr [(1, ''nkia'')] \<and>
   settle unreadable (Get 1) [(1, ''nkia'')] =
     (ErrorEvent (DOMException ''UnknownError''), [(1, ''nkia'')]) \<and>
   settled (update unreadable ''testDB'' ''testStore'' ''nkia222'' 1 populated) = None"
proof -
  have h1: "openDB unreadable ''testDB'' ''testStore'' None populated =
     (Inr \<lparr>conn_name = ''testDB'', conn_version = 1\<rparr>, populated)"
    by (simp add: openDB_default_at_1 unreadable_def version_of_populated)
  have h2: "db_transaction \<lparr>conn_name = ''testDB'', conn_version = 1\<rparr> ''testStore'' populated =
     Inr [(1, ''nkia'')]"
    by (simp add: db_transaction_def example_defs)
  have h3: "settle unreadable (Get 1) [(1, ''nkia'')] =
     (ErrorEvent (DOMException ''UnknownError''), [(1, ''nkia'')])"
    by (simp add: settle_def unreadable_def)
  from update_read_error_never_settles [OF h1 h2 h3] h1 h2 h3 show ?thesis
    by simp
qed

end
